theory Spec2Isabelle
  imports Main
begin

section \<open>The target cache of the event gateway (targetcache/cache.go)\<close>

text \<open>
  The four caches of \<^verbatim>\<open>targetcache/cache.go\<close> are embedded as state-passing functions.
  A Go map is a partial function; a Go set (\<^verbatim>\<open>map[K]struct{}\<close>) is a HOL set. The inner
  sets are reference values in Go, but every inner set is created by a literal inside
  \<^verbatim>\<open>Set\<close> and stored under exactly one key of one outer map, so updating the set in place
  and storing the updated set under its key are the same thing.

  Every method returns the cache after the call together with the effects the call
  performed, in program order: taking and releasing the write lock, running the JSON
  decoder, and calling the logger. A run-time panic is the left injection of a sum.
  The model is sequential: one call runs from its first statement to its last.
\<close>

subsection \<open>Identifiers, payloads and entities\<close>

text \<open>A byte slice is a list of 8-bit characters; identifiers are Go strings.\<close>

type_synonym bytes = string
type_synonym FunctionID = string
type_synonym EndpointID = string
type_synonym PublisherID = string
type_synonym TopicID = string

text \<open>The message of a Go \<^verbatim>\<open>error\<close> value.\<close>

type_synonym go_error = string

text \<open>
  Modelled from the spec: the type \<^verbatim>\<open>pubsub.FunctionEnd\<close> and its constants
  \<^verbatim>\<open>pubsub.Input\<close> and \<^verbatim>\<open>pubsub.Output\<close> are declared in a package that is not part of
  the sources. The directionality tag is Input or Output; the code has a third branch for
  every other value of the type, which \<open>OtherEnd\<close> stands for.
\<close>

datatype FunctionEnd = Input | Output | OtherEnd string

text \<open>
  Modelled from the spec: \<^verbatim>\<open>pubsub.Publisher\<close> is declared outside the sources. The
  cache reads the three fields below and no other.
\<close>

record Publisher =
  FunctionID :: FunctionID
  TopicID :: TopicID
  FunctionEnd :: FunctionEnd

text \<open>
  Modelled from the spec: \<^verbatim>\<open>pubsub.Subscriber\<close> is declared outside the sources. The
  cache reads its fields \<^verbatim>\<open>TopicID\<close> and \<^verbatim>\<open>FunctionID\<close>, here \<open>sTopicID\<close> and
  \<open>sFunctionID\<close> (the names without prefix belong to the publisher record).
\<close>

record Subscriber =
  sTopicID :: TopicID
  sFunctionID :: FunctionID

text \<open>
  \<^verbatim>\<open>json.NewDecoder(bytes.NewReader(v)).Decode(&x)\<close> belongs to the Go library: every
  method takes it as a parameter that either fails with an error or yields the decoded
  value. \<^verbatim>\<open>functions.Function\<close> and \<^verbatim>\<open>endpoints.Endpoint\<close> are opaque to the cache and
  stay type parameters.
\<close>

type_synonym 'a decoder = "bytes \<Rightarrow> go_error + 'a"

text \<open>
  A decoder given by a finite table of the payloads it accepts, for evaluating the
  methods on concrete inputs.
\<close>

definition table_decoder :: "(bytes \<times> 'a) list \<Rightarrow> 'a decoder" where
  "table_decoder tbl v =
     (case map_of tbl v of
        None \<Rightarrow> Inl ''invalid character''
      | Some x \<Rightarrow> Inr x)"

subsection \<open>Effects and panics\<close>

text \<open>
  \<open>LogError msg err key\<close> is a call \<^verbatim>\<open>c.log.Error(msg, zap.Error(err), zap.String("key", key))\<close>,
  the two fields being optional.
\<close>

datatype effect =
    Lock
  | Unlock
  | Decode
  | LogError string "go_error option" "string option"

text \<open>Go panics on an assignment to an entry of a nil map.\<close>

datatype panic = AssignNilMap

text \<open>
  \<open>unlocked_decode held es\<close>: no decoder call of \<open>es\<close> happens while the write lock is
  held, \<open>held\<close> telling whether it is held before \<open>es\<close>.
\<close>

fun unlocked_decode :: "bool \<Rightarrow> effect list \<Rightarrow> bool" where
  "unlocked_decode held [] = True"
| "unlocked_decode held (Lock # es) = unlocked_decode True es"
| "unlocked_decode held (Unlock # es) = unlocked_decode False es"
| "unlocked_decode held (Decode # es) = (\<not> held \<and> unlocked_decode held es)"
| "unlocked_decode held (LogError msg err key # es) = unlocked_decode held es"

subsection \<open>Set-valued maps\<close>

text \<open>
  The block that \<^verbatim>\<open>publisherCache.Set\<close> (lines 148-155 and 157-164) and
  \<^verbatim>\<open>subscriberCache.Set\<close> (lines 229-236) each write out: add \<open>x\<close> to the set under \<open>k\<close>,
  creating the set when the key is absent.
\<close>

definition set_add :: "'k \<Rightarrow> 'x \<Rightarrow> ('k \<rightharpoonup> 'x set) \<Rightarrow> ('k \<rightharpoonup> 'x set)" where
  "set_add k x m =
     (case m k of
        Some pubSet \<Rightarrow> m(k \<mapsto> insert x pubSet)
      | None \<Rightarrow> m(k \<mapsto> {x}))"

text \<open>
  The block that \<^verbatim>\<open>publisherCache.Del\<close> (lines 180-187 and 189-196) and
  \<^verbatim>\<open>subscriberCache.Del\<close> (lines 250-257) each write out: when the key exists, delete
  \<open>x\<close> from its set, and delete the key when the set has become empty.
\<close>

definition set_del :: "'k \<Rightarrow> 'x \<Rightarrow> ('k \<rightharpoonup> 'x set) \<Rightarrow> ('k \<rightharpoonup> 'x set)" where
  "set_del k x m =
     (case m k of
        Some topicSet \<Rightarrow>
          (if topicSet - {x} = {} then m(k := None) else m(k \<mapsto> topicSet - {x}))
      | None \<Rightarrow> m)"

text \<open>The members of the set under a key, empty when the key is absent.\<close>

definition members :: "('k \<rightharpoonup> 'x set) \<Rightarrow> 'k \<Rightarrow> 'x set" where
  "members m k = (case m k of None \<Rightarrow> {} | Some s \<Rightarrow> s)"

text \<open>No key is mapped to an empty set.\<close>

definition no_empty_set :: "('k \<rightharpoonup> 'x set) \<Rightarrow> bool" where
  "no_empty_set m = (\<forall>k s. m k = Some s \<longrightarrow> s \<noteq> {})"

subsection \<open>functionCache and endpointCache\<close>

record 'f functionCache =
  fcache :: "FunctionID \<rightharpoonup> 'f"

definition newFunctionCache :: "'f functionCache" where
  "newFunctionCache = \<lparr>fcache = Map.empty\<rparr>"

definition functionCache_Set ::
  "'f decoder \<Rightarrow> string \<Rightarrow> bytes \<Rightarrow> 'f functionCache \<Rightarrow> 'f functionCache \<times> effect list" where
  "functionCache_Set dec k v c =
     (case dec v of
        Inl err \<Rightarrow>
          (c, [Decode, LogError ''Could not deserialize Function state!'' (Some err) (Some k)])
      | Inr f \<Rightarrow> (c\<lparr>fcache := (fcache c)(k \<mapsto> f)\<rparr>, [Decode, Lock, Unlock]))"

definition functionCache_Del ::
  "string \<Rightarrow> bytes \<Rightarrow> 'f functionCache \<Rightarrow> 'f functionCache \<times> effect list" where
  "functionCache_Del k v c = (c\<lparr>fcache := (fcache c)(k := None)\<rparr>, [Lock, Unlock])"

record 'e endpointCache =
  ecache :: "EndpointID \<rightharpoonup> 'e"

definition newEndpointCache :: "'e endpointCache" where
  "newEndpointCache = \<lparr>ecache = Map.empty\<rparr>"

definition endpointCache_Set ::
  "'e decoder \<Rightarrow> string \<Rightarrow> bytes \<Rightarrow> 'e endpointCache \<Rightarrow> 'e endpointCache \<times> effect list" where
  "endpointCache_Set dec k v c =
     (case dec v of
        Inl err \<Rightarrow>
          (c, [Decode, LogError ''Could not deserialize Endpoint state!'' (Some err) (Some k)])
      | Inr e \<Rightarrow> (c\<lparr>ecache := (ecache c)(k \<mapsto> e)\<rparr>, [Decode, Lock, Unlock]))"

definition endpointCache_Del ::
  "string \<Rightarrow> bytes \<Rightarrow> 'e endpointCache \<Rightarrow> 'e endpointCache \<times> effect list" where
  "endpointCache_Del k v c = (c\<lparr>ecache := (ecache c)(k := None)\<rparr>, [Lock, Unlock])"

subsection \<open>publisherCache\<close>

text \<open>
  \<^verbatim>\<open>newPublisherCache\<close> sets \<^verbatim>\<open>log\<close>, \<^verbatim>\<open>fnInToTopic\<close> and \<^verbatim>\<open>fnOutToTopic\<close> and leaves the
  field \<^verbatim>\<open>cache\<close> at its zero value, the nil map. The primary map is therefore an
  option: \<open>None\<close> is the nil map, \<open>Some m\<close> an allocated one. Reading a nil map finds no
  key; assigning to it panics.
\<close>

record publisherCache =
  cache :: "(PublisherID \<rightharpoonup> Publisher) option"
  fnInToTopic :: "FunctionID \<rightharpoonup> TopicID set"
  fnOutToTopic :: "FunctionID \<rightharpoonup> TopicID set"

definition newPublisherCache :: publisherCache where
  "newPublisherCache =
     \<lparr>cache = None, fnInToTopic = Map.empty, fnOutToTopic = Map.empty\<rparr>"

definition publisherCache_Set ::
  "Publisher decoder \<Rightarrow> string \<Rightarrow> bytes \<Rightarrow> publisherCache \<Rightarrow>
     panic + publisherCache \<times> effect list" where
  "publisherCache_Set dec k v c =
     (case dec v of
        Inl err \<Rightarrow>
          Inr (c, [Decode,
                   LogError ''Could not deserialize Publisher state!'' (Some err) (Some k)])
      | Inr p \<Rightarrow>
          (case cache c of
             None \<Rightarrow> Inl AssignNilMap
           | Some m \<Rightarrow>
               (let c1 = c\<lparr>cache := Some (m(k \<mapsto> p))\<rparr> in
                if FunctionEnd p = Input then
                  Inr (c1\<lparr>fnInToTopic := set_add (FunctionID p) (TopicID p) (fnInToTopic c1)\<rparr>,
                       [Decode, Lock, Unlock])
                else if FunctionEnd p = Output then
                  Inr (c1\<lparr>fnOutToTopic := set_add (FunctionID p) (TopicID p) (fnOutToTopic c1)\<rparr>,
                       [Decode, Lock, Unlock])
                else
                  Inr (c1, [Decode, Lock,
                            LogError ''received a new Publisher with an invalid FunctionEnd!''
                              None None,
                            Unlock]))))"

text \<open>The two-valued read \<^verbatim>\<open>oldProd, exists := c.cache[k]\<close>, also of a nil map.\<close>

definition cache_lookup :: "publisherCache \<Rightarrow> PublisherID \<Rightarrow> Publisher option" where
  "cache_lookup c k = (case cache c of None \<Rightarrow> None | Some m \<Rightarrow> m k)"

definition publisherCache_Del ::
  "string \<Rightarrow> bytes \<Rightarrow> publisherCache \<Rightarrow> publisherCache \<times> effect list" where
  "publisherCache_Del k v c =
     (case cache_lookup c k of
        None \<Rightarrow> (c, [Lock, Unlock])
      | Some oldProd \<Rightarrow>
          if FunctionEnd oldProd = Input then
            (c\<lparr>fnInToTopic := set_del (FunctionID oldProd) (TopicID oldProd) (fnInToTopic c)\<rparr>,
             [Lock, Unlock])
          else if FunctionEnd oldProd = Output then
            (c\<lparr>fnOutToTopic := set_del (FunctionID oldProd) (TopicID oldProd) (fnOutToTopic c)\<rparr>,
             [Lock, Unlock])
          else
            (c, [Lock,
                 LogError ''trying to delete a Publisher with an invalid FunctionEnd!''
                   None None,
                 Unlock]))"

subsection \<open>subscriberCache\<close>

record subscriberCache =
  topicToFns :: "TopicID \<rightharpoonup> FunctionID set"

definition newSubscriberCache :: subscriberCache where
  "newSubscriberCache = \<lparr>topicToFns = Map.empty\<rparr>"

definition subscriberCache_Set ::
  "Subscriber decoder \<Rightarrow> string \<Rightarrow> bytes \<Rightarrow> subscriberCache \<Rightarrow>
     subscriberCache \<times> effect list" where
  "subscriberCache_Set dec k v c =
     (case dec v of
        Inl err \<Rightarrow>
          (c, [Decode,
               LogError ''Could not deserialize Subscriber state!'' (Some err) (Some k)])
      | Inr s \<Rightarrow>
          (c\<lparr>topicToFns := set_add (sTopicID s) (sFunctionID s) (topicToFns c)\<rparr>,
           [Decode, Lock, Unlock]))"

definition subscriberCache_Del ::
  "Subscriber decoder \<Rightarrow> string \<Rightarrow> bytes \<Rightarrow> subscriberCache \<Rightarrow>
     subscriberCache \<times> effect list" where
  "subscriberCache_Del dec k v c =
     (case dec v of
        Inl err \<Rightarrow>
          (c, [Lock, Decode,
               LogError ''Could not deserialize Subscriber state during deletion!''
                 (Some err) (Some k),
               Unlock])
      | Inr oldSub \<Rightarrow>
          (c\<lparr>topicToFns := set_del (sTopicID oldSub) (sFunctionID oldSub) (topicToFns c)\<rparr>,
           [Lock, Decode, Unlock]))"

subsection \<open>cacheMaintainer\<close>

text \<open>
  The three notifications of the upstream store. \<^verbatim>\<open>Created\<close> and \<^verbatim>\<open>Modified\<close> call
  \<^verbatim>\<open>Set\<close> of the wrapped cache, \<^verbatim>\<open>Deleted\<close> calls \<^verbatim>\<open>Del\<close>.
\<close>

datatype notification =
    Created string bytes
  | Modified string bytes
  | Deleted string bytes

fun publisher_notify ::
  "Publisher decoder \<Rightarrow> notification \<Rightarrow> publisherCache \<Rightarrow>
     panic + publisherCache \<times> effect list" where
  "publisher_notify dec (Created key val) c = publisherCache_Set dec key val c"
| "publisher_notify dec (Modified key newValue) c = publisherCache_Set dec key newValue c"
| "publisher_notify dec (Deleted key lastKnownValue) c =
     Inr (publisherCache_Del key lastKnownValue c)"

fun subscriber_notify ::
  "Subscriber decoder \<Rightarrow> notification \<Rightarrow> subscriberCache \<Rightarrow>
     subscriberCache \<times> effect list" where
  "subscriber_notify dec (Created key val) c = subscriberCache_Set dec key val c"
| "subscriber_notify dec (Modified key newValue) c = subscriberCache_Set dec key newValue c"
| "subscriber_notify dec (Deleted key lastKnownValue) c =
     subscriberCache_Del dec key lastKnownValue c"

text \<open>
  A sequence of notifications delivered one after the other. A panic ends the
  sequence: the calls after it do not run.
\<close>

fun publisher_run ::
  "Publisher decoder \<Rightarrow> notification list \<Rightarrow> publisherCache \<Rightarrow> panic + publisherCache" where
  "publisher_run dec [] c = Inr c"
| "publisher_run dec (n # ns) c =
     (case publisher_notify dec n c of
        Inl p \<Rightarrow> Inl p
      | Inr (c', es) \<Rightarrow> publisher_run dec ns c')"

fun subscriber_run ::
  "Subscriber decoder \<Rightarrow> notification list \<Rightarrow> subscriberCache \<Rightarrow> subscriberCache" where
  "subscriber_run dec [] c = c"
| "subscriber_run dec (n # ns) c = subscriber_run dec ns (fst (subscriber_notify dec n c))"

fun is_Deleted :: "notification \<Rightarrow> bool" where
  "is_Deleted (Deleted key lastKnownValue) = True"
| "is_Deleted (Created key val) = False"
| "is_Deleted (Modified key newValue) = False"

section \<open>Stating the properties\<close>

subsection \<open>The image of the primary map\<close>

text \<open>Some binding of the primary map has this function, this topic and this end.\<close>

definition has_binding ::
  "publisherCache \<Rightarrow> FunctionEnd \<Rightarrow> FunctionID \<Rightarrow> TopicID \<Rightarrow> bool" where
  "has_binding c e fn topic =
     (\<exists>k p. cache_lookup c k = Some p \<and> FunctionID p = fn \<and> TopicID p = topic \<and>
        FunctionEnd p = e)"

text \<open>The two multi-maps are exactly the image of the primary map.\<close>

definition index_image :: "publisherCache \<Rightarrow> bool" where
  "index_image c =
     (\<forall>fn topic.
        (topic \<in> members (fnInToTopic c) fn) = has_binding c Input fn topic \<and>
        (topic \<in> members (fnOutToTopic c) fn) = has_binding c Output fn topic)"

text \<open>One half of it: the pair of every binding is in the matching multi-map.\<close>

definition index_complete :: "publisherCache \<Rightarrow> bool" where
  "index_complete c =
     (\<forall>fn topic.
        (has_binding c Input fn topic \<longrightarrow> topic \<in> members (fnInToTopic c) fn) \<and>
        (has_binding c Output fn topic \<longrightarrow> topic \<in> members (fnOutToTopic c) fn))"

fun key_of :: "notification \<Rightarrow> string" where
  "key_of (Created key val) = key"
| "key_of (Modified key newValue) = key"
| "key_of (Deleted key lastKnownValue) = key"

text \<open>
  The pair of a binding added to the multi-map of its end, and to none when the end is
  neither Input nor Output: what \<^verbatim>\<open>publisherCache.Set\<close> does to the multi-maps.
\<close>

definition insert_pair :: "Publisher \<Rightarrow> publisherCache \<Rightarrow> publisherCache" where
  "insert_pair p c =
     (if FunctionEnd p = Input then
        c\<lparr>fnInToTopic := set_add (FunctionID p) (TopicID p) (fnInToTopic c)\<rparr>
      else if FunctionEnd p = Output then
        c\<lparr>fnOutToTopic := set_add (FunctionID p) (TopicID p) (fnOutToTopic c)\<rparr>
      else c)"

subsection \<open>Example payloads and states\<close>

definition pub1 :: Publisher where
  "pub1 = \<lparr>FunctionID = ''f1'', TopicID = ''t1'', FunctionEnd = Input\<rparr>"

definition pub2 :: Publisher where
  "pub2 = \<lparr>FunctionID = ''f1'', TopicID = ''t2'', FunctionEnd = Input\<rparr>"

definition pub3 :: Publisher where
  "pub3 = \<lparr>FunctionID = ''f2'', TopicID = ''t3'', FunctionEnd = OtherEnd ''bogus''\<rparr>"

definition pub4 :: Publisher where
  "pub4 = \<lparr>FunctionID = ''f2'', TopicID = ''t4'', FunctionEnd = Output\<rparr>"

definition sub1 :: Subscriber where
  "sub1 = \<lparr>sTopicID = ''t1'', sFunctionID = ''f1''\<rparr>"

definition sub2 :: Subscriber where
  "sub2 = \<lparr>sTopicID = ''t2'', sFunctionID = ''f1''\<rparr>"

definition decodePublisher :: "Publisher decoder" where
  "decodePublisher =
     table_decoder [(''pub1 json'', pub1), (''pub2 json'', pub2), (''pub3 json'', pub3),
       (''pub4 json'', pub4)]"

definition decodeSubscriber :: "Subscriber decoder" where
  "decodeSubscriber = table_decoder [(''sub1 json'', sub1), (''sub2 json'', sub2)]"

text \<open>
  Decoders of the function, endpoint and subscriber caches that accept the same two
  payloads as \<open>decodePublisher\<close>; a function or an endpoint is a number here.
\<close>

definition decodeFunction :: "nat decoder" where
  "decodeFunction = table_decoder [(''pub1 json'', 1), (''pub2 json'', 2)]"

definition decodeBinding :: "Subscriber decoder" where
  "decodeBinding = table_decoder [(''pub1 json'', sub1), (''pub2 json'', sub2)]"

text \<open>A publisher cache whose primary map is allocated and empty.\<close>

definition allocatedPublisherCache :: publisherCache where
  "allocatedPublisherCache =
     \<lparr>cache = Some Map.empty, fnInToTopic = Map.empty, fnOutToTopic = Map.empty\<rparr>"

definition cacheWithPub1 :: publisherCache where
  "cacheWithPub1 =
     \<lparr>cache = Some [''pub1'' \<mapsto> pub1], fnInToTopic = [''f1'' \<mapsto> {''t1''}],
      fnOutToTopic = Map.empty\<rparr>"

definition cacheWithBoth :: publisherCache where
  "cacheWithBoth =
     \<lparr>cache = Some [''pub1'' \<mapsto> pub1, ''pub4'' \<mapsto> pub4],
      fnInToTopic = [''f1'' \<mapsto> {''t1''}],
      fnOutToTopic = [''f2'' \<mapsto> {''t4''}]\<rparr>"

definition overwrittenCache :: publisherCache where
  "overwrittenCache =
     \<lparr>cache = Some [''pub1'' \<mapsto> pub2], fnInToTopic = [''f1'' \<mapsto> {''t1'', ''t2''}],
      fnOutToTopic = Map.empty\<rparr>"

definition deletedCache :: publisherCache where
  "deletedCache =
     \<lparr>cache = Some [''pub1'' \<mapsto> pub1], fnInToTopic = Map.empty,
      fnOutToTopic = Map.empty\<rparr>"

definition twoPublishersCache :: publisherCache where
  "twoPublishersCache =
     \<lparr>cache = Some [''pub1'' \<mapsto> pub1, ''pub2'' \<mapsto> pub2],
      fnInToTopic = [''f1'' \<mapsto> {''t1'', ''t2''}],
      fnOutToTopic = Map.empty\<rparr>"

definition cacheAfterDel :: publisherCache where
  "cacheAfterDel =
     \<lparr>cache = Some [''pub1'' \<mapsto> pub1, ''pub2'' \<mapsto> pub2],
      fnInToTopic = [''f1'' \<mapsto> {''t2''}],
      fnOutToTopic = Map.empty\<rparr>"

definition cacheWithSub1 :: subscriberCache where
  "cacheWithSub1 = \<lparr>topicToFns = [''t1'' \<mapsto> {''f1''}]\<rparr>"

section \<open>Auxiliary facts\<close>

subsection \<open>Set-valued maps\<close>

lemma members_set_add:
  "members (set_add k x m) k' = (if k' = k then insert x (members m k) else members m k')"
  by (simp add: members_def set_add_def split: option.splits)

lemma set_del_idem: "set_del k x (set_del k x m) = set_del k x m"
  by (auto simp add: set_del_def split: option.splits)

lemma set_add_commute:
  "set_add k x (set_add k' x' m) = set_add k' x' (set_add k x m)"
  by (auto simp add: set_add_def fun_upd_twist insert_commute split: option.splits)

lemma no_empty_set_add: "no_empty_set m \<Longrightarrow> no_empty_set (set_add k x m)"
  by (auto simp add: no_empty_set_def set_add_def split: option.splits if_splits)

lemma no_empty_set_del: "no_empty_set m \<Longrightarrow> no_empty_set (set_del k x m)"
  by (auto simp add: no_empty_set_def set_del_def split: option.splits if_splits)

lemma set_del_absent:
  "no_empty_set m \<Longrightarrow> x \<notin> members m k \<Longrightarrow> set_del k x m = m"
  by (auto simp add: no_empty_set_def set_del_def members_def split: option.splits)

lemma set_del_last: "m k = Some {x} \<Longrightarrow> set_del k x m k = None"
  by (simp add: set_del_def)

subsection \<open>The example decoders\<close>

lemma decodePublisher_simps:
  "decodePublisher ''pub1 json'' = Inr pub1"
  "decodePublisher ''pub2 json'' = Inr pub2"
  "decodePublisher ''pub3 json'' = Inr pub3"
  "decodePublisher ''pub4 json'' = Inr pub4"
  "decodePublisher ''not json'' = Inl ''invalid character''"
  by (simp_all add: decodePublisher_def table_decoder_def)

lemma decodeSubscriber_simps:
  "decodeSubscriber ''sub1 json'' = Inr sub1"
  "decodeSubscriber ''sub2 json'' = Inr sub2"
  "decodeSubscriber ''not json'' = Inl ''invalid character''"
  by (simp_all add: decodeSubscriber_def table_decoder_def)

lemma decodeFunction_simps:
  "decodeFunction ''pub1 json'' = Inr 1"
  "decodeFunction ''pub2 json'' = Inr 2"
  "decodeFunction ''not json'' = Inl ''invalid character''"
  by (simp_all add: decodeFunction_def table_decoder_def)

lemma decodeBinding_simps:
  "decodeBinding ''pub1 json'' = Inr sub1"
  "decodeBinding ''pub2 json'' = Inr sub2"
  by (simp_all add: decodeBinding_def table_decoder_def)

subsection \<open>publisherCache.Del\<close>

text \<open>\<^verbatim>\<open>publisherCache.Del\<close> has no statement that writes the primary map.\<close>

lemma publisherCache_Del_cache: "cache (fst (publisherCache_Del k v c)) = cache c"
  by (simp add: publisherCache_Del_def split: option.splits)

lemma publisherCache_Del_lookup:
  "cache_lookup (fst (publisherCache_Del k v c)) k' = cache_lookup c k'"
  by (simp add: cache_lookup_def publisherCache_Del_cache)

lemma publisherCache_Del_idem:
  "fst (publisherCache_Del k v (fst (publisherCache_Del k v c))) = fst (publisherCache_Del k v c)"
proof (cases "cache_lookup c k")
  case None
  then show ?thesis by (simp add: publisherCache_Del_def)
next
  case (Some oldProd)
  have same: "cache_lookup (fst (publisherCache_Del k v c)) k = Some oldProd"
    using Some by (simp add: publisherCache_Del_lookup)
  show ?thesis
    unfolding publisherCache_Del_def [of k v "fst (publisherCache_Del k v c)"] same
    by (simp add: publisherCache_Del_def Some set_del_idem)
qed

lemma subscriberCache_Del_idem:
  "fst (subscriberCache_Del dec k v (fst (subscriberCache_Del dec k v c)))
     = fst (subscriberCache_Del dec k v c)"
  by (simp add: subscriberCache_Del_def set_del_idem split: sum.splits)

subsection \<open>publisherCache.Set\<close>

text \<open>A Set that returns either failed to decode, or stored the binding and its pair.\<close>

lemma publisherCache_Set_cases:
  assumes "publisherCache_Set dec k v c = Inr (c', es)"
  shows "(\<exists>err. dec v = Inl err \<and> c' = c)
       \<or> (\<exists>p m. dec v = Inr p \<and> cache c = Some m
             \<and> c' = insert_pair p (c\<lparr>cache := Some (m(k \<mapsto> p))\<rparr>))"
  using assms
  by (auto simp add: publisherCache_Set_def insert_pair_def Let_def
      split: sum.splits option.splits if_splits)

text \<open>
  The only panic of the eight methods: a Set of the publisher cache whose payload
  decodes, on a nil primary map. The other seven methods return a cache by their type.
\<close>

lemma publisherCache_Set_panics_iff:
  "publisherCache_Set dec k v c = Inl e \<longleftrightarrow> (\<exists>p. dec v = Inr p) \<and> cache c = None"
  by (cases e)
    (auto simp add: publisherCache_Set_def Let_def split: sum.splits option.splits)

lemma publisherCache_Set_decoded:
  "dec v = Inr p \<Longrightarrow>
   publisherCache_Set dec k v c =
     (case cache c of
        None \<Rightarrow> Inl AssignNilMap
      | Some m \<Rightarrow>
          Inr (insert_pair p (c\<lparr>cache := Some (m(k \<mapsto> p))\<rparr>),
               if FunctionEnd p = Input \<or> FunctionEnd p = Output then [Decode, Lock, Unlock]
               else [Decode, Lock,
                     LogError ''received a new Publisher with an invalid FunctionEnd!''
                       None None,
                     Unlock]))"
  by (simp add: publisherCache_Set_def insert_pair_def Let_def split: option.splits)

text \<open>
  On an allocated primary map, a binding whose end is neither Input nor Output is
  stored, the multi-maps stay as they are and the error is logged.
\<close>

lemma publisherCache_Set_invalid_end:
  assumes "dec v = Inr p" and "FunctionEnd p \<noteq> Input" and "FunctionEnd p \<noteq> Output"
    and "cache c = Some m"
  shows "publisherCache_Set dec k v c =
           Inr (c\<lparr>cache := Some (m(k \<mapsto> p))\<rparr>,
                [Decode, Lock,
                 LogError ''received a new Publisher with an invalid FunctionEnd!'' None None,
                 Unlock])"
  using assms by (simp add: publisherCache_Set_def)

lemma insert_pair_cache [simp]: "cache (insert_pair p c) = cache c"
  by (simp add: insert_pair_def)

lemma insert_pair_lookup [simp]: "cache_lookup (insert_pair p c) k = cache_lookup c k"
  by (simp add: cache_lookup_def)

lemma has_binding_insert_pair [simp]:
  "has_binding (insert_pair p c) e fn topic = has_binding c e fn topic"
  by (simp add: has_binding_def)

lemma insert_pair_commute:
  "insert_pair p (insert_pair q c) = insert_pair q (insert_pair p c)"
  by (simp add: insert_pair_def set_add_commute)

lemma insert_pair_store:
  "insert_pair p (c\<lparr>cache := x\<rparr>) = (insert_pair p c)\<lparr>cache := x\<rparr>"
  by (simp add: insert_pair_def)

lemma members_in_insert_pair:
  "topic \<in> members (fnInToTopic (insert_pair p c)) fn \<longleftrightarrow>
     topic \<in> members (fnInToTopic c) fn
     \<or> (FunctionID p = fn \<and> TopicID p = topic \<and> FunctionEnd p = Input)"
  by (auto simp add: insert_pair_def members_set_add)

lemma members_out_insert_pair:
  "topic \<in> members (fnOutToTopic (insert_pair p c)) fn \<longleftrightarrow>
     topic \<in> members (fnOutToTopic c) fn
     \<or> (FunctionID p = fn \<and> TopicID p = topic \<and> FunctionEnd p = Output)"
  by (auto simp add: insert_pair_def members_set_add)

lemma Set_lookup_other:
  assumes "publisherCache_Set dec k v c = Inr (c', es)" and "k' \<noteq> k"
  shows "cache_lookup c' k' = cache_lookup c k'"
  using publisherCache_Set_cases [OF assms(1)] assms(2)
  by (auto simp add: cache_lookup_def)

subsection \<open>Bindings after a store\<close>

lemma has_binding_store:
  assumes "cache c = Some m"
  shows "has_binding (c\<lparr>cache := Some (m(k \<mapsto> p))\<rparr>) e fn topic \<longleftrightarrow>
           (FunctionID p = fn \<and> TopicID p = topic \<and> FunctionEnd p = e)
           \<or> (\<exists>k' q. k' \<noteq> k \<and> m k' = Some q \<and> FunctionID q = fn \<and> TopicID q = topic
                 \<and> FunctionEnd q = e)"
  unfolding has_binding_def cache_lookup_def
  by (auto split: if_splits)

lemma has_binding_store_fresh:
  assumes "cache c = Some m" and "m k = None"
  shows "has_binding (c\<lparr>cache := Some (m(k \<mapsto> p))\<rparr>) e fn topic \<longleftrightarrow>
           (FunctionID p = fn \<and> TopicID p = topic \<and> FunctionEnd p = e)
           \<or> has_binding c e fn topic"
proof -
  have "has_binding c e fn topic \<longleftrightarrow>
      (\<exists>k' q. k' \<noteq> k \<and> m k' = Some q \<and> FunctionID q = fn \<and> TopicID q = topic
                 \<and> FunctionEnd q = e)"
    unfolding has_binding_def cache_lookup_def using assms
    by (simp) (metis option.distinct(1))
  then show ?thesis using has_binding_store [OF assms(1)] by simp
qed

lemma has_binding_store_old:
  assumes "cache c = Some m"
    and "has_binding (c\<lparr>cache := Some (m(k \<mapsto> p))\<rparr>) e fn topic"
  shows "(FunctionID p = fn \<and> TopicID p = topic \<and> FunctionEnd p = e)
           \<or> has_binding c e fn topic"
proof -
  have "(\<exists>k' q. k' \<noteq> k \<and> m k' = Some q \<and> FunctionID q = fn \<and> TopicID q = topic
                 \<and> FunctionEnd q = e) \<Longrightarrow> has_binding c e fn topic"
    unfolding has_binding_def cache_lookup_def using assms(1) by auto
  then show ?thesis using has_binding_store [OF assms(1)] assms(2) by blast
qed

lemma Set_keeps_complete:
  assumes "index_complete c" and "publisherCache_Set dec k v c = Inr (c', es)"
  shows "index_complete c'"
  using publisherCache_Set_cases [OF assms(2)]
proof (elim disjE exE conjE)
  fix err assume "c' = c"
  then show ?thesis using assms(1) by simp
next
  fix p m
  assume m: "cache c = Some m" and c': "c' = insert_pair p (c\<lparr>cache := Some (m(k \<mapsto> p))\<rparr>)"
  show ?thesis
    unfolding index_complete_def c' has_binding_insert_pair
      members_in_insert_pair members_out_insert_pair
    using assms(1) has_binding_store_old [OF m]
    unfolding index_complete_def by (simp) blast
qed

lemma Set_fresh_keeps_image:
  assumes "index_image c" and "cache_lookup c k = None"
    and "publisherCache_Set dec k v c = Inr (c', es)"
  shows "index_image c'"
  using publisherCache_Set_cases [OF assms(3)]
proof (elim disjE exE conjE)
  fix err assume "c' = c"
  then show ?thesis using assms(1) by simp
next
  fix p m
  assume m: "cache c = Some m" and c': "c' = insert_pair p (c\<lparr>cache := Some (m(k \<mapsto> p))\<rparr>)"
  have fresh: "m k = None" using assms(2) m by (simp add: cache_lookup_def)
  show ?thesis
    unfolding index_image_def c' has_binding_insert_pair
      members_in_insert_pair members_out_insert_pair
      has_binding_store_fresh [OF m fresh]
    using assms(1) unfolding index_image_def by (simp) blast
qed

subsection \<open>Sequences of Set calls\<close>

lemma notify_keeps_complete:
  assumes "index_complete c" and "\<not> is_Deleted n"
    and "publisher_notify dec n c = Inr (c', es)"
  shows "index_complete c'"
  using assms by (cases n) (auto intro: Set_keeps_complete)

lemma notify_fresh_keeps_image:
  assumes "index_image c" and "\<not> is_Deleted n" and "cache_lookup c (key_of n) = None"
    and "publisher_notify dec n c = Inr (c', es)"
  shows "index_image c'"
  using assms by (cases n) (auto intro: Set_fresh_keeps_image)

lemma notify_lookup_other:
  assumes "\<not> is_Deleted n" and "publisher_notify dec n c = Inr (c', es)"
    and "k' \<noteq> key_of n"
  shows "cache_lookup c' k' = cache_lookup c k'"
  using assms by (cases n) (auto dest: Set_lookup_other)

lemma run_keeps_complete:
  "index_complete c \<Longrightarrow> list_all (\<lambda>n. \<not> is_Deleted n) ns \<Longrightarrow>
   publisher_run dec ns c = Inr c' \<Longrightarrow> index_complete c'"
proof (induction ns arbitrary: c)
  case Nil
  then show ?case by simp
next
  case (Cons n ns)
  from Cons.prems(3) obtain c1 es where
    step: "publisher_notify dec n c = Inr (c1, es)" and rest: "publisher_run dec ns c1 = Inr c'"
    by (auto split: sum.splits)
  have "index_complete c1"
    using notify_keeps_complete [OF Cons.prems(1) _ step] Cons.prems(2) by simp
  then show ?case using Cons.IH [OF _ _ rest] Cons.prems(2) by simp
qed

lemma run_fresh_keeps_image:
  "index_image c \<Longrightarrow> list_all (\<lambda>n. \<not> is_Deleted n) ns \<Longrightarrow> distinct (map key_of ns) \<Longrightarrow>
   \<forall>n\<in>set ns. cache_lookup c (key_of n) = None \<Longrightarrow>
   publisher_run dec ns c = Inr c' \<Longrightarrow> index_image c'"
proof (induction ns arbitrary: c)
  case Nil
  then show ?case by simp
next
  case (Cons n ns)
  from Cons.prems(5) obtain c1 es where
    step: "publisher_notify dec n c = Inr (c1, es)" and rest: "publisher_run dec ns c1 = Inr c'"
    by (auto split: sum.splits)
  have nd: "\<not> is_Deleted n" using Cons.prems(2) by simp
  have img: "index_image c1"
    using notify_fresh_keeps_image [OF Cons.prems(1) nd _ step] Cons.prems(4) by simp
  have absent: "\<forall>n'\<in>set ns. cache_lookup c1 (key_of n') = None"
  proof
    fix n' assume n': "n' \<in> set ns"
    then have "key_of n' \<noteq> key_of n" using Cons.prems(3) by (metis distinct.simps(2) image_eqI list.simps(9) set_map)
    then show "cache_lookup c1 (key_of n') = None"
      using notify_lookup_other [OF nd step] Cons.prems(4) n' by simp
  qed
  show ?case
    using Cons.IH [OF img _ _ absent rest] Cons.prems(2,3) by simp
qed

lemma image_imp_complete: "index_image c \<Longrightarrow> index_complete c"
  by (simp add: index_image_def index_complete_def)

subsection \<open>Evaluations\<close>

lemma run_overwrite:
  "publisher_run decodePublisher
     [Created ''pub1'' ''pub1 json'', Modified ''pub1'' ''pub2 json''] allocatedPublisherCache
   = Inr overwrittenCache"
  by (simp add: publisherCache_Set_def decodePublisher_simps allocatedPublisherCache_def
      overwrittenCache_def pub1_def pub2_def set_add_def insert_commute)

lemma run_delete:
  "publisher_run decodePublisher
     [Created ''pub1'' ''pub1 json'', Deleted ''pub1'' ''pub1 json''] allocatedPublisherCache
   = Inr deletedCache"
  by (simp add: publisherCache_Set_def publisherCache_Del_def cache_lookup_def
      decodePublisher_simps allocatedPublisherCache_def
      deletedCache_def pub1_def set_add_def set_del_def)

lemma image_allocated: "index_image allocatedPublisherCache"
  by (simp add: index_image_def has_binding_def members_def cache_lookup_def
      allocatedPublisherCache_def)

lemma not_image_overwritten: "\<not> index_image overwrittenCache"
proof
  assume "index_image overwrittenCache"
  then have "(''t1'' \<in> members (fnInToTopic overwrittenCache) ''f1'')
      = has_binding overwrittenCache Input ''f1'' ''t1''"
    unfolding index_image_def by blast
  then show False
    by (auto simp add: has_binding_def members_def cache_lookup_def overwrittenCache_def
        pub2_def split: if_splits)
qed

lemma not_image_deleted: "\<not> index_image deletedCache"
proof
  assume "index_image deletedCache"
  then have "(''t1'' \<in> members (fnInToTopic deletedCache) ''f1'')
      = has_binding deletedCache Input ''f1'' ''t1''"
    unfolding index_image_def by blast
  moreover have "has_binding deletedCache Input ''f1'' ''t1''"
    unfolding has_binding_def
    by (rule exI [of _ "''pub1''"], rule exI [of _ pub1])
       (simp add: cache_lookup_def deletedCache_def pub1_def)
  ultimately show False
    by (simp add: members_def deletedCache_def)
qed

lemma run_two_publishers:
  "publisher_run decodePublisher
     [Created ''pub1'' ''pub1 json'', Created ''pub2'' ''pub2 json''] allocatedPublisherCache
   = Inr twoPublishersCache"
  by (simp add: publisherCache_Set_def decodePublisher_simps allocatedPublisherCache_def
      twoPublishersCache_def pub1_def pub2_def set_add_def insert_commute fun_upd_twist)

subsection \<open>Overwriting Set calls\<close>

lemma functionCache_Set_overwrite:
  "fdec v2 = Inr f2 \<Longrightarrow>
   fst (functionCache_Set fdec k v2 (fst (functionCache_Set fdec k v1 fc)))
     = fst (functionCache_Set fdec k v2 fc)"
  by (simp add: functionCache_Set_def split: sum.splits)

lemma endpointCache_Set_overwrite:
  "edec v2 = Inr e2 \<Longrightarrow>
   fst (endpointCache_Set edec k v2 (fst (endpointCache_Set edec k v1 ec)))
     = fst (endpointCache_Set edec k v2 ec)"
  by (simp add: endpointCache_Set_def split: sum.splits)

lemma publisherCache_Set_overwrite:
  assumes "pdec v1 = Inr p1" and "pdec v2 = Inr p2"
  shows "publisher_run pdec [Created k v1, Modified k v2] pc
       = map_sum id (insert_pair p1) (publisher_run pdec [Modified k v2] pc)"
proof -
  have s1: "\<And>c. publisherCache_Set pdec k v1 c =
     (case cache c of
        None \<Rightarrow> Inl AssignNilMap
      | Some m \<Rightarrow>
          Inr (insert_pair p1 (c\<lparr>cache := Some (m(k \<mapsto> p1))\<rparr>),
               if FunctionEnd p1 = Input \<or> FunctionEnd p1 = Output then [Decode, Lock, Unlock]
               else [Decode, Lock,
                     LogError ''received a new Publisher with an invalid FunctionEnd!''
                       None None,
                     Unlock]))"
    using assms(1) by (rule publisherCache_Set_decoded)
  have s2: "\<And>c. publisherCache_Set pdec k v2 c =
     (case cache c of
        None \<Rightarrow> Inl AssignNilMap
      | Some m \<Rightarrow>
          Inr (insert_pair p2 (c\<lparr>cache := Some (m(k \<mapsto> p2))\<rparr>),
               if FunctionEnd p2 = Input \<or> FunctionEnd p2 = Output then [Decode, Lock, Unlock]
               else [Decode, Lock,
                     LogError ''received a new Publisher with an invalid FunctionEnd!''
                       None None,
                     Unlock]))"
    using assms(2) by (rule publisherCache_Set_decoded)
  show ?thesis
  proof (cases "cache pc")
    case None
    then show ?thesis by (simp add: s1 s2)
  next
    case (Some m)
    then show ?thesis
      by (simp add: s1 s2 insert_pair_store insert_pair_commute [of p1 p2])
  qed
qed

lemma subscriberCache_Set_overwrite:
  assumes "sdec v1 = Inr s1" and "sdec v2 = Inr s2"
  shows "fst (subscriberCache_Set sdec k v2 (fst (subscriberCache_Set sdec k v1 sc)))
       = (fst (subscriberCache_Set sdec k v2 sc))
           \<lparr>topicToFns := set_add (sTopicID s1) (sFunctionID s1)
              (topicToFns (fst (subscriberCache_Set sdec k v2 sc)))\<rparr>"
  using assms
  by (simp add: subscriberCache_Set_def set_add_commute [of "sTopicID s1"])

subsection \<open>Decoding and the write lock\<close>

lemma Set_decodes_before_lock:
  "unlocked_decode False (snd (functionCache_Set fdec k v fc))"
  "unlocked_decode False (snd (endpointCache_Set edec k v ec))"
  "publisherCache_Set pdec k v pc = Inr (pc', es) \<Longrightarrow> unlocked_decode False es"
  "unlocked_decode False (snd (subscriberCache_Set sdec k v sc))"
  by (auto simp add: functionCache_Set_def endpointCache_Set_def publisherCache_Set_def
      subscriberCache_Set_def Let_def split: sum.splits option.splits if_splits)

lemma Del_without_decode:
  "unlocked_decode False (snd (functionCache_Del k v fc))"
  "unlocked_decode False (snd (endpointCache_Del k v ec))"
  "unlocked_decode False (snd (publisherCache_Del k v pc))"
  by (auto simp add: functionCache_Del_def endpointCache_Del_def publisherCache_Del_def
      split: option.splits)

lemma subscriberCache_Del_locks_first:
  "\<not> unlocked_decode False (snd (subscriberCache_Del sdec k v sc))"
  by (simp add: subscriberCache_Del_def split: sum.splits)

subsection \<open>Empty sets\<close>

lemma notify_no_empty_set:
  assumes "no_empty_set (fnInToTopic c)" and "no_empty_set (fnOutToTopic c)"
    and "publisher_notify dec n c = Inr (c', es)"
  shows "no_empty_set (fnInToTopic c') \<and> no_empty_set (fnOutToTopic c')"
proof (cases n)
  case (Deleted key lastKnownValue)
  then show ?thesis using assms
    by (auto simp add: publisherCache_Del_def no_empty_set_del split: option.splits if_splits)
next
  case (Created key val)
  then have "publisherCache_Set dec key val c = Inr (c', es)" using assms(3) by simp
  from publisherCache_Set_cases [OF this] show ?thesis using assms(1,2)
    by (auto simp add: insert_pair_def no_empty_set_add)
next
  case (Modified key val)
  then have "publisherCache_Set dec key val c = Inr (c', es)" using assms(3) by simp
  from publisherCache_Set_cases [OF this] show ?thesis using assms(1,2)
    by (auto simp add: insert_pair_def no_empty_set_add)
qed

lemma publisher_run_no_empty_set:
  "no_empty_set (fnInToTopic c) \<Longrightarrow> no_empty_set (fnOutToTopic c) \<Longrightarrow>
   publisher_run dec ns c = Inr c' \<Longrightarrow>
   no_empty_set (fnInToTopic c') \<and> no_empty_set (fnOutToTopic c')"
proof (induction ns arbitrary: c)
  case Nil
  then show ?case by simp
next
  case (Cons n ns)
  from Cons.prems(3) obtain c1 es where
    step: "publisher_notify dec n c = Inr (c1, es)" and rest: "publisher_run dec ns c1 = Inr c'"
    by (auto split: sum.splits)
  from notify_no_empty_set [OF Cons.prems(1,2) step] show ?case
    using Cons.IH [OF _ _ rest] by simp
qed

lemma subscriber_notify_no_empty_set:
  "no_empty_set (topicToFns c) \<Longrightarrow> no_empty_set (topicToFns (fst (subscriber_notify dec n c)))"
  by (cases n)
    (auto simp add: subscriberCache_Set_def subscriberCache_Del_def no_empty_set_add
      no_empty_set_del split: sum.splits)

lemma subscriber_run_no_empty_set:
  "no_empty_set (topicToFns c) \<Longrightarrow> no_empty_set (topicToFns (subscriber_run dec ns c))"
  by (induction ns arbitrary: c) (simp_all add: subscriber_notify_no_empty_set)

lemma run_set_set_del:
  "publisher_run decodePublisher
     [Created ''pub1'' ''pub1 json'', Created ''pub2'' ''pub2 json'',
      Deleted ''pub1'' ''pub1 json''] allocatedPublisherCache
   = Inr cacheAfterDel"
  by (simp add: publisherCache_Set_def publisherCache_Del_def cache_lookup_def
      decodePublisher_simps allocatedPublisherCache_def cacheAfterDel_def pub1_def pub2_def
      set_add_def set_del_def fun_upd_twist insert_Diff_if)

section \<open>The claims\<close>

subsection \<open>C1: Set and Del never abort\<close>

text \<open>
  C1. Claim: Set and Del of every cache are total and never abort the process; in
  particular the first successful Set on a freshly constructed publisher cache
  completes and stores the binding in the primary map. The code does not do this:
  \<^verbatim>\<open>newPublisherCache\<close> leaves the primary map nil, and the first Set whose payload
  decodes panics on the assignment to it. The theorem evaluates that call; it is the
  only way any of the eight methods aborts (\<open>publisherCache_Set_panics_iff\<close>).
\<close>

theorem C1_fresh_publisher_Set_panics:
  "publisherCache_Set decodePublisher ''pub1'' ''pub1 json'' newPublisherCache
     = Inl AssignNilMap"
  by (simp add: publisherCache_Set_def decodePublisher_simps newPublisherCache_def)

subsection \<open>C2: Del removes the key from the primary map\<close>

text \<open>
  C2. Claim: when key \<open>k\<close> is present in the primary map of the publisher cache, it is
  absent after \<open>Del(k, bytes)\<close>. The code does not do this: \<^verbatim>\<open>publisherCache.Del\<close>
  retracts the pair from the multi-map and never deletes the key from the primary map.
  The theorem evaluates Del on a cache that holds the binding \<open>pub1\<close>: the binding is
  still stored afterwards, while its pair is gone from the input multi-map. No Del
  changes the primary map (\<open>publisherCache_Del_cache\<close>).
\<close>

theorem C2_Del_keeps_primary_key:
  "cache_lookup cacheWithPub1 ''pub1'' = Some pub1 \<and>
   cache_lookup (fst (publisherCache_Del ''pub1'' ''pub1 json'' cacheWithPub1)) ''pub1''
     = Some pub1 \<and>
   fnInToTopic (fst (publisherCache_Del ''pub1'' ''pub1 json'' cacheWithPub1)) ''f1'' = None"
  by (simp add: publisherCache_Del_def cache_lookup_def cacheWithPub1_def pub1_def set_del_def)

subsection \<open>C3: the multi-maps are the image of the primary map\<close>

text \<open>
  C3, as stated: after every completed sequence of Set and Del calls the two
  multi-maps are exactly the image of the primary map. This fails. Starting from an
  allocated empty cache, where the image property holds, a Set that overwrites the
  binding of \<open>pub1\<close> leaves the pair of the old binding in the input multi-map with no
  binding behind it; and a Set followed by a Del leaves the binding in the primary map
  with its pair retracted.
\<close>

theorem C3_image_broken_by_overwrite_and_Del:
  "index_image allocatedPublisherCache
   \<and> publisher_run decodePublisher
       [Created ''pub1'' ''pub1 json'', Modified ''pub1'' ''pub2 json'']
       allocatedPublisherCache = Inr overwrittenCache
   \<and> \<not> index_image overwrittenCache
   \<and> publisher_run decodePublisher
       [Created ''pub1'' ''pub1 json'', Deleted ''pub1'' ''pub1 json'']
       allocatedPublisherCache = Inr deletedCache
   \<and> \<not> index_image deletedCache"
  using image_allocated run_overwrite not_image_overwritten run_delete not_image_deleted
  by blast

text \<open>
  C3, amended: after every completed sequence of Set calls (no Del) on the publisher
  cache, the pair of every Input binding of the primary map is in the input multi-map
  and the pair of every Output binding is in the output multi-map, provided this held
  before the sequence; and when moreover the Set calls go to pairwise different keys
  that the primary map did not hold before, the multi-maps are exactly the image of the
  primary map after the sequence if they were before it.
\<close>

theorem C3_image_after_Sets:
  assumes "publisher_run dec ns c = Inr c'" and "list_all (\<lambda>n. \<not> is_Deleted n) ns"
  shows "(index_complete c \<longrightarrow> index_complete c')
       \<and> (index_image c \<and> distinct (map key_of ns)
            \<and> (\<forall>n\<in>set ns. cache_lookup c (key_of n) = None) \<longrightarrow> index_image c')"
  using assms run_keeps_complete run_fresh_keeps_image by blast

theorem C3_witness:
  "publisher_run decodePublisher
     [Created ''pub1'' ''pub1 json'', Created ''pub2'' ''pub2 json''] allocatedPublisherCache
     = Inr twoPublishersCache
   \<and> list_all (\<lambda>n. \<not> is_Deleted n)
       [Created ''pub1'' ''pub1 json'', Created ''pub2'' ''pub2 json'']
   \<and> index_image allocatedPublisherCache
   \<and> index_complete allocatedPublisherCache
   \<and> distinct (map key_of [Created ''pub1'' ''pub1 json'', Created ''pub2'' ''pub2 json''])
   \<and> cache_lookup allocatedPublisherCache ''pub1'' = None
   \<and> cache_lookup allocatedPublisherCache ''pub2'' = None
   \<and> index_complete twoPublishersCache
   \<and> index_image twoPublishersCache"
proof -
  have l: "list_all (\<lambda>n. \<not> is_Deleted n)
       [Created ''pub1'' ''pub1 json'', Created ''pub2'' ''pub2 json'']"
    by simp
  have d: "distinct (map key_of [Created ''pub1'' ''pub1 json'', Created ''pub2'' ''pub2 json''])"
    by simp
  have a: "cache_lookup allocatedPublisherCache ''pub1'' = None"
    "cache_lookup allocatedPublisherCache ''pub2'' = None"
    by (simp_all add: cache_lookup_def allocatedPublisherCache_def)
  then have a': "\<forall>n\<in>set [Created ''pub1'' ''pub1 json'', Created ''pub2'' ''pub2 json''].
      cache_lookup allocatedPublisherCache (key_of n) = None"
    by simp
  show ?thesis
    using C3_image_after_Sets [OF run_two_publishers l] run_two_publishers l d a a'
      image_allocated image_imp_complete [OF image_allocated]
    by blast
qed

subsection \<open>C4: a Set overwrites the previous Set of the key\<close>

text \<open>
  C4, as stated: for every cache, \<open>Set(k, v1)\<close> followed by \<open>Set(k, v2)\<close> yields exactly
  the state of \<open>Set(k, v2)\<close> alone. This fails for the two caches with multi-maps. On a
  fresh subscriber cache the subscription of \<open>v1\<close> to topic \<open>t1\<close> is still there after
  the second Set; on a publisher cache the two runs end in different states.
\<close>

theorem C4_overwrite_leaves_residue:
  "decodeSubscriber ''sub1 json'' = Inr sub1
   \<and> decodeSubscriber ''sub2 json'' = Inr sub2
   \<and> topicToFns (fst (subscriberCache_Set decodeSubscriber ''sub1'' ''sub2 json''
        (fst (subscriberCache_Set decodeSubscriber ''sub1'' ''sub1 json'' newSubscriberCache))))
        ''t1'' = Some {''f1''}
   \<and> topicToFns (fst (subscriberCache_Set decodeSubscriber ''sub1'' ''sub2 json''
        newSubscriberCache)) ''t1'' = None
   \<and> decodePublisher ''pub1 json'' = Inr pub1
   \<and> decodePublisher ''pub2 json'' = Inr pub2
   \<and> publisher_run decodePublisher
        [Created ''pub1'' ''pub1 json'', Modified ''pub1'' ''pub2 json'']
        allocatedPublisherCache
      \<noteq> publisher_run decodePublisher [Modified ''pub1'' ''pub2 json'']
        allocatedPublisherCache"
proof -
  have s12: "topicToFns (fst (subscriberCache_Set decodeSubscriber ''sub1'' ''sub2 json''
        (fst (subscriberCache_Set decodeSubscriber ''sub1'' ''sub1 json'' newSubscriberCache))))
        ''t1'' = Some {''f1''}"
    by (simp add: subscriberCache_Set_def decodeSubscriber_simps newSubscriberCache_def
        sub1_def sub2_def set_add_def)
  have s2: "topicToFns (fst (subscriberCache_Set decodeSubscriber ''sub1'' ''sub2 json''
        newSubscriberCache)) ''t1'' = None"
    by (simp add: subscriberCache_Set_def decodeSubscriber_simps newSubscriberCache_def
        sub2_def set_add_def)
  have p2: "publisher_run decodePublisher [Modified ''pub1'' ''pub2 json'']
        allocatedPublisherCache
      = Inr \<lparr>cache = Some [''pub1'' \<mapsto> pub2], fnInToTopic = [''f1'' \<mapsto> {''t2''}],
          fnOutToTopic = Map.empty\<rparr>"
    by (simp add: publisherCache_Set_def decodePublisher_simps allocatedPublisherCache_def
        pub2_def set_add_def)
  have "[''f1'' \<mapsto> {''t1'', ''t2''}] ''f1'' \<noteq> [''f1'' \<mapsto> {''t2''}] ''f1''"
    by simp
  then have "[''f1'' \<mapsto> {''t1'', ''t2''}] \<noteq> [''f1'' \<mapsto> {''t2''}]"
    by metis
  then have ne: "publisher_run decodePublisher
        [Created ''pub1'' ''pub1 json'', Modified ''pub1'' ''pub2 json'']
        allocatedPublisherCache
      \<noteq> publisher_run decodePublisher [Modified ''pub1'' ''pub2 json'']
        allocatedPublisherCache"
    unfolding run_overwrite p2 by (simp add: overwrittenCache_def)
  show ?thesis using s12 s2 ne decodeSubscriber_simps decodePublisher_simps by blast
qed

text \<open>
  C4, amended: for the function and the endpoint cache, \<open>Set(k, v1)\<close> followed by
  \<open>Set(k, v2)\<close> with a valid \<open>v2\<close> yields exactly the state of \<open>Set(k, v2)\<close> alone. For
  the publisher cache and valid \<open>v1\<close>, \<open>v2\<close> the two calls yield the outcome of
  \<open>Set(k, v2)\<close> alone with the pair of \<open>v1\<close> added to the multi-map of the end of
  \<open>v1\<close>: the primary map holds only the binding of \<open>v2\<close> under \<open>k\<close>, the pair of \<open>v1\<close>
  stays in its multi-map. For the subscriber cache the two calls yield the state of
  \<open>Set(k, v2)\<close> alone with the function of \<open>v1\<close> added under the topic of \<open>v1\<close>.
\<close>

theorem C4_Set_overwrite:
  "(fdec v2 = Inr f2 \<longrightarrow>
      fst (functionCache_Set fdec k v2 (fst (functionCache_Set fdec k v1 fc)))
        = fst (functionCache_Set fdec k v2 fc))
   \<and> (edec v2 = Inr e2 \<longrightarrow>
      fst (endpointCache_Set edec k v2 (fst (endpointCache_Set edec k v1 ec)))
        = fst (endpointCache_Set edec k v2 ec))
   \<and> (pdec v1 = Inr p1 \<and> pdec v2 = Inr p2 \<longrightarrow>
      publisher_run pdec [Created k v1, Modified k v2] pc
        = map_sum id (insert_pair p1) (publisher_run pdec [Modified k v2] pc))
   \<and> (sdec v1 = Inr s1 \<and> sdec v2 = Inr s2 \<longrightarrow>
      fst (subscriberCache_Set sdec k v2 (fst (subscriberCache_Set sdec k v1 sc)))
        = (fst (subscriberCache_Set sdec k v2 sc))
            \<lparr>topicToFns := set_add (sTopicID s1) (sFunctionID s1)
               (topicToFns (fst (subscriberCache_Set sdec k v2 sc)))\<rparr>)"
  using functionCache_Set_overwrite [of fdec v2 f2 k v1 fc]
    endpointCache_Set_overwrite [of edec v2 e2 k v1 ec]
    publisherCache_Set_overwrite [of pdec v1 p1 v2 p2 k pc]
    subscriberCache_Set_overwrite [of sdec v1 s1 v2 s2 k sc]
  by blast


theorem C4_witness:
  "decodeFunction ''pub2 json'' = Inr 2
   \<and> fst (functionCache_Set decodeFunction ''pub1'' ''pub2 json''
        (fst (functionCache_Set decodeFunction ''pub1'' ''pub1 json'' newFunctionCache)))
      = fst (functionCache_Set decodeFunction ''pub1'' ''pub2 json'' newFunctionCache)
   \<and> fst (endpointCache_Set decodeFunction ''pub1'' ''pub2 json''
        (fst (endpointCache_Set decodeFunction ''pub1'' ''pub1 json'' newEndpointCache)))
      = fst (endpointCache_Set decodeFunction ''pub1'' ''pub2 json'' newEndpointCache)
   \<and> decodePublisher ''pub1 json'' = Inr pub1
   \<and> decodePublisher ''pub2 json'' = Inr pub2
   \<and> publisher_run decodePublisher
        [Created ''pub1'' ''pub1 json'', Modified ''pub1'' ''pub2 json'']
        allocatedPublisherCache
      = map_sum id (insert_pair pub1)
          (publisher_run decodePublisher [Modified ''pub1'' ''pub2 json'']
             allocatedPublisherCache)
   \<and> decodeBinding ''pub1 json'' = Inr sub1
   \<and> decodeBinding ''pub2 json'' = Inr sub2
   \<and> fst (subscriberCache_Set decodeBinding ''pub1'' ''pub2 json''
        (fst (subscriberCache_Set decodeBinding ''pub1'' ''pub1 json'' newSubscriberCache)))
      = (fst (subscriberCache_Set decodeBinding ''pub1'' ''pub2 json'' newSubscriberCache))
          \<lparr>topicToFns := set_add (sTopicID sub1) (sFunctionID sub1)
             (topicToFns (fst (subscriberCache_Set decodeBinding ''pub1'' ''pub2 json''
                newSubscriberCache)))\<rparr>"
  using C4_Set_overwrite
      [where fdec = decodeFunction and edec = decodeFunction and pdec = decodePublisher
         and sdec = decodeBinding and k = "''pub1''" and ?v1.0 = "''pub1 json''"
         and ?v2.0 = "''pub2 json''" and ?f2.0 = 2 and ?e2.0 = 2 and ?p1.0 = pub1
         and ?p2.0 = pub2 and ?s1.0 = sub1 and ?s2.0 = sub2
         and fc = newFunctionCache and ec = newEndpointCache
         and pc = allocatedPublisherCache and sc = newSubscriberCache]
    decodeFunction_simps decodePublisher_simps decodeBinding_simps
  by blast

subsection \<open>C5: a payload that does not decode changes nothing\<close>

text \<open>
  C5. For every cache, every key and every payload that the decoder rejects, Set
  returns the cache it was given: neither the primary map nor a multi-map changes, and
  the only effects are the decoder call and one call of the logger. The same holds
  for Del of the subscriber cache, which takes and releases the lock around them.
\<close>

theorem C5_malformed_payload_noop:
  "(fdec v = Inl err \<longrightarrow>
      functionCache_Set fdec k v fc =
        (fc, [Decode, LogError ''Could not deserialize Function state!'' (Some err) (Some k)]))
   \<and> (edec v = Inl err \<longrightarrow>
      endpointCache_Set edec k v ec =
        (ec, [Decode, LogError ''Could not deserialize Endpoint state!'' (Some err) (Some k)]))
   \<and> (pdec v = Inl err \<longrightarrow>
      publisherCache_Set pdec k v pc =
        Inr (pc, [Decode,
                  LogError ''Could not deserialize Publisher state!'' (Some err) (Some k)]))
   \<and> (sdec v = Inl err \<longrightarrow>
      subscriberCache_Set sdec k v sc =
        (sc, [Decode,
              LogError ''Could not deserialize Subscriber state!'' (Some err) (Some k)])
      \<and> subscriberCache_Del sdec k v sc =
        (sc, [Lock, Decode,
              LogError ''Could not deserialize Subscriber state during deletion!''
                (Some err) (Some k),
              Unlock]))"
  by (simp add: functionCache_Set_def endpointCache_Set_def publisherCache_Set_def
      subscriberCache_Set_def subscriberCache_Del_def)


theorem C5_witness:
  "decodeFunction ''not json'' = Inl ''invalid character''
   \<and> functionCache_Set decodeFunction ''pub1'' ''not json'' newFunctionCache =
        (newFunctionCache,
         [Decode, LogError ''Could not deserialize Function state!''
            (Some ''invalid character'') (Some ''pub1'')])
   \<and> endpointCache_Set decodeFunction ''pub1'' ''not json'' newEndpointCache =
        (newEndpointCache,
         [Decode, LogError ''Could not deserialize Endpoint state!''
            (Some ''invalid character'') (Some ''pub1'')])
   \<and> decodePublisher ''not json'' = Inl ''invalid character''
   \<and> publisherCache_Set decodePublisher ''pub1'' ''not json'' cacheWithPub1 =
        Inr (cacheWithPub1,
             [Decode, LogError ''Could not deserialize Publisher state!''
                (Some ''invalid character'') (Some ''pub1'')])
   \<and> decodeSubscriber ''not json'' = Inl ''invalid character''
   \<and> subscriberCache_Set decodeSubscriber ''pub1'' ''not json'' cacheWithSub1 =
        (cacheWithSub1,
         [Decode, LogError ''Could not deserialize Subscriber state!''
            (Some ''invalid character'') (Some ''pub1'')])
   \<and> subscriberCache_Del decodeSubscriber ''pub1'' ''not json'' cacheWithSub1 =
        (cacheWithSub1,
         [Lock, Decode,
          LogError ''Could not deserialize Subscriber state during deletion!''
            (Some ''invalid character'') (Some ''pub1''),
          Unlock])"
  using C5_malformed_payload_noop
      [where fdec = decodeFunction and edec = decodeFunction and pdec = decodePublisher
         and sdec = decodeSubscriber and k = "''pub1''" and v = "''not json''"
         and err = "''invalid character''"
         and fc = newFunctionCache and ec = newEndpointCache
         and pc = cacheWithPub1 and sc = cacheWithSub1]
    decodeFunction_simps decodePublisher_simps decodeSubscriber_simps
  by blast

subsection \<open>C6: Del of an absent entry is a no-op, and Del is idempotent\<close>

text \<open>
  C6. For every cache, Del of an entry that is absent returns the cache unchanged and
  logs nothing: a key absent from the map of the function, endpoint or publisher cache,
  and for the subscriber cache a function that is not in the set of the payload's
  topic (the cache having no empty set, as C8 shows of every cache the methods
  produce). For every cache, a second Del with the same arguments leaves the state of
  the first.
\<close>

theorem C6_Del_absent_noop_and_idempotent:
  "(fcache fc k = None \<longrightarrow> functionCache_Del k v fc = (fc, [Lock, Unlock]))
   \<and> fst (functionCache_Del k v (fst (functionCache_Del k v fc)))
       = fst (functionCache_Del k v fc)
   \<and> (ecache ec k = None \<longrightarrow> endpointCache_Del k v ec = (ec, [Lock, Unlock]))
   \<and> fst (endpointCache_Del k v (fst (endpointCache_Del k v ec)))
       = fst (endpointCache_Del k v ec)
   \<and> (cache_lookup pc k = None \<longrightarrow> publisherCache_Del k v pc = (pc, [Lock, Unlock]))
   \<and> fst (publisherCache_Del k v (fst (publisherCache_Del k v pc)))
       = fst (publisherCache_Del k v pc)
   \<and> (sdec v = Inr s \<and> no_empty_set (topicToFns sc)
        \<and> sFunctionID s \<notin> members (topicToFns sc) (sTopicID s) \<longrightarrow>
        subscriberCache_Del sdec k v sc = (sc, [Lock, Decode, Unlock]))
   \<and> fst (subscriberCache_Del sdec k v (fst (subscriberCache_Del sdec k v sc)))
       = fst (subscriberCache_Del sdec k v sc)"
proof -
  have f1: "fcache fc k = None \<longrightarrow> functionCache_Del k v fc = (fc, [Lock, Unlock])"
    by (simp add: functionCache_Del_def fun_upd_idem)
  have f2: "fst (functionCache_Del k v (fst (functionCache_Del k v fc)))
       = fst (functionCache_Del k v fc)"
    by (simp add: functionCache_Del_def)
  have e1: "ecache ec k = None \<longrightarrow> endpointCache_Del k v ec = (ec, [Lock, Unlock])"
    by (simp add: endpointCache_Del_def fun_upd_idem)
  have e2: "fst (endpointCache_Del k v (fst (endpointCache_Del k v ec)))
       = fst (endpointCache_Del k v ec)"
    by (simp add: endpointCache_Del_def)
  have p1: "cache_lookup pc k = None \<longrightarrow> publisherCache_Del k v pc = (pc, [Lock, Unlock])"
    by (simp add: publisherCache_Del_def)
  have s1: "sdec v = Inr s \<and> no_empty_set (topicToFns sc)
        \<and> sFunctionID s \<notin> members (topicToFns sc) (sTopicID s) \<longrightarrow>
        subscriberCache_Del sdec k v sc = (sc, [Lock, Decode, Unlock])"
    by (simp add: subscriberCache_Del_def set_del_absent)
  show ?thesis
    using f1 f2 e1 e2 p1 s1 publisherCache_Del_idem subscriberCache_Del_idem by blast
qed

theorem C6_witness:
  "fcache (newFunctionCache :: nat functionCache) ''sub2'' = None
   \<and> functionCache_Del ''sub2'' ''sub2 json'' (newFunctionCache :: nat functionCache)
       = (newFunctionCache, [Lock, Unlock])
   \<and> ecache (newEndpointCache :: nat endpointCache) ''sub2'' = None
   \<and> endpointCache_Del ''sub2'' ''sub2 json'' (newEndpointCache :: nat endpointCache)
       = (newEndpointCache, [Lock, Unlock])
   \<and> cache_lookup cacheWithPub1 ''sub2'' = None
   \<and> publisherCache_Del ''sub2'' ''sub2 json'' cacheWithPub1 = (cacheWithPub1, [Lock, Unlock])
   \<and> decodeSubscriber ''sub2 json'' = Inr sub2
   \<and> no_empty_set (topicToFns cacheWithSub1)
   \<and> sFunctionID sub2 \<notin> members (topicToFns cacheWithSub1) (sTopicID sub2)
   \<and> subscriberCache_Del decodeSubscriber ''sub2'' ''sub2 json'' cacheWithSub1
       = (cacheWithSub1, [Lock, Decode, Unlock])"
proof -
  have a: "fcache (newFunctionCache :: nat functionCache) ''sub2'' = None"
    by (simp add: newFunctionCache_def)
  have b: "ecache (newEndpointCache :: nat endpointCache) ''sub2'' = None"
    by (simp add: newEndpointCache_def)
  have c: "cache_lookup cacheWithPub1 ''sub2'' = None"
    by (simp add: cache_lookup_def cacheWithPub1_def)
  have d: "decodeSubscriber ''sub2 json'' = Inr sub2"
    by (simp add: decodeSubscriber_def table_decoder_def)
  have e: "no_empty_set (topicToFns cacheWithSub1)"
    by (simp add: no_empty_set_def cacheWithSub1_def)
  have f: "sFunctionID sub2 \<notin> members (topicToFns cacheWithSub1) (sTopicID sub2)"
    by (simp add: members_def sub2_def cacheWithSub1_def)
  show ?thesis
    using a b c d e f
      C6_Del_absent_noop_and_idempotent
        [where fc = "newFunctionCache :: nat functionCache"
           and ec = "newEndpointCache :: nat endpointCache"
           and pc = cacheWithPub1 and sc = cacheWithSub1 and sdec = decodeSubscriber
           and s = sub2 and k = "''sub2''" and v = "''sub2 json''"]
    by blast
qed


subsection \<open>C7: a binding with an invalid FunctionEnd\<close>

text \<open>
  C7. Claim: a publisher Set whose payload decodes to a binding with a FunctionEnd that
  is neither Input nor Output stores the binding in the primary map, leaves both
  multi-maps unchanged and reports an error. On a cache made by \<^verbatim>\<open>newPublisherCache\<close>
  the code does not get that far: the primary map is nil and the assignment that
  stores the binding panics, before the FunctionEnd is looked at. The theorem evaluates
  that call. (On an allocated primary map the code does what the claim says:
  \<open>publisherCache_Set_invalid_end\<close>.)
\<close>

theorem C7_invalid_end_Set_panics_on_fresh_cache:
  "decodePublisher ''pub3 json'' = Inr pub3
   \<and> FunctionEnd pub3 \<noteq> Input \<and> FunctionEnd pub3 \<noteq> Output
   \<and> publisherCache_Set decodePublisher ''pub3'' ''pub3 json'' newPublisherCache
       = Inl AssignNilMap"
  by (simp add: publisherCache_Set_def decodePublisher_simps newPublisherCache_def pub3_def)

subsection \<open>C8: no key of a multi-map is left with an empty set\<close>

text \<open>
  C8. The multi-maps of a fresh publisher cache and of a fresh subscriber cache have no
  key mapped to an empty set, and every completed sequence of Set and Del calls on a
  cache without such a key ends in a cache without such a key. Del of the last
  element of a set removes the key of the set: from the input multi-map, from the
  output multi-map and from the multi-map of the subscriber cache.
\<close>

theorem C8_no_empty_sets:
  "no_empty_set (fnInToTopic newPublisherCache)
   \<and> no_empty_set (fnOutToTopic newPublisherCache)
   \<and> no_empty_set (topicToFns newSubscriberCache)
   \<and> (no_empty_set (fnInToTopic pc) \<and> no_empty_set (fnOutToTopic pc)
        \<and> publisher_run pdec ns pc = Inr pc' \<longrightarrow>
        no_empty_set (fnInToTopic pc') \<and> no_empty_set (fnOutToTopic pc'))
   \<and> (no_empty_set (topicToFns sc) \<longrightarrow>
        no_empty_set (topicToFns (subscriber_run sdec ns sc)))
   \<and> (cache_lookup dc k = Some p \<and> FunctionEnd p = Input
        \<and> fnInToTopic dc (FunctionID p) = Some {TopicID p} \<longrightarrow>
        fnInToTopic (fst (publisherCache_Del k v dc)) (FunctionID p) = None)
   \<and> (cache_lookup dc k' = Some q \<and> FunctionEnd q = Output
        \<and> fnOutToTopic dc (FunctionID q) = Some {TopicID q} \<longrightarrow>
        fnOutToTopic (fst (publisherCache_Del k' v dc)) (FunctionID q) = None)
   \<and> (sdec v = Inr s \<and> topicToFns ds (sTopicID s) = Some {sFunctionID s} \<longrightarrow>
        topicToFns (fst (subscriberCache_Del sdec k v ds)) (sTopicID s) = None)"
proof -
  have new: "no_empty_set (fnInToTopic newPublisherCache)"
    "no_empty_set (fnOutToTopic newPublisherCache)"
    "no_empty_set (topicToFns newSubscriberCache)"
    by (simp_all add: no_empty_set_def newPublisherCache_def newSubscriberCache_def)
  have din: "cache_lookup dc k = Some p \<and> FunctionEnd p = Input
        \<and> fnInToTopic dc (FunctionID p) = Some {TopicID p} \<longrightarrow>
        fnInToTopic (fst (publisherCache_Del k v dc)) (FunctionID p) = None"
    by (simp add: publisherCache_Del_def set_del_last)
  have dout: "cache_lookup dc k' = Some q \<and> FunctionEnd q = Output
        \<and> fnOutToTopic dc (FunctionID q) = Some {TopicID q} \<longrightarrow>
        fnOutToTopic (fst (publisherCache_Del k' v dc)) (FunctionID q) = None"
    by (simp add: publisherCache_Del_def set_del_last)
  have dsub: "sdec v = Inr s \<and> topicToFns ds (sTopicID s) = Some {sFunctionID s} \<longrightarrow>
        topicToFns (fst (subscriberCache_Del sdec k v ds)) (sTopicID s) = None"
    by (simp add: subscriberCache_Del_def set_del_last)
  show ?thesis
    using new din dout dsub publisher_run_no_empty_set [of pc pdec ns pc']
      subscriber_run_no_empty_set [of sc sdec ns]
    by blast
qed

theorem C8_witness:
  "no_empty_set (fnInToTopic allocatedPublisherCache)
   \<and> no_empty_set (fnOutToTopic allocatedPublisherCache)
   \<and> publisher_run decodePublisher
        [Created ''pub1'' ''pub1 json'', Created ''pub2'' ''pub2 json'',
         Deleted ''pub1'' ''pub1 json''] allocatedPublisherCache
       = Inr cacheAfterDel
   \<and> no_empty_set (fnInToTopic cacheAfterDel)
   \<and> no_empty_set (fnOutToTopic cacheAfterDel)
   \<and> no_empty_set (topicToFns newSubscriberCache)
   \<and> no_empty_set (topicToFns (subscriber_run decodeBinding
        [Created ''pub1'' ''pub1 json'', Created ''pub2'' ''pub2 json'',
         Deleted ''pub1'' ''pub1 json''] newSubscriberCache))
   \<and> cache_lookup cacheWithBoth ''pub1'' = Some pub1
   \<and> FunctionEnd pub1 = Input
   \<and> fnInToTopic cacheWithBoth (FunctionID pub1) = Some {TopicID pub1}
   \<and> fnInToTopic (fst (publisherCache_Del ''pub1'' ''pub1 json'' cacheWithBoth))
        (FunctionID pub1) = None
   \<and> cache_lookup cacheWithBoth ''pub4'' = Some pub4
   \<and> FunctionEnd pub4 = Output
   \<and> fnOutToTopic cacheWithBoth (FunctionID pub4) = Some {TopicID pub4}
   \<and> fnOutToTopic (fst (publisherCache_Del ''pub4'' ''pub1 json'' cacheWithBoth))
        (FunctionID pub4) = None
   \<and> decodeBinding ''pub1 json'' = Inr sub1
   \<and> topicToFns cacheWithSub1 (sTopicID sub1) = Some {sFunctionID sub1}
   \<and> topicToFns (fst (subscriberCache_Del decodeBinding ''pub1'' ''pub1 json'' cacheWithSub1))
        (sTopicID sub1) = None"
proof -
  have a: "no_empty_set (fnInToTopic allocatedPublisherCache)"
    "no_empty_set (fnOutToTopic allocatedPublisherCache)"
    by (simp_all add: no_empty_set_def allocatedPublisherCache_def)
  have b: "cache_lookup cacheWithBoth ''pub1'' = Some pub1" "FunctionEnd pub1 = Input"
    "fnInToTopic cacheWithBoth (FunctionID pub1) = Some {TopicID pub1}"
    by (simp_all add: cache_lookup_def cacheWithBoth_def pub1_def)
  have c: "cache_lookup cacheWithBoth ''pub4'' = Some pub4" "FunctionEnd pub4 = Output"
    "fnOutToTopic cacheWithBoth (FunctionID pub4) = Some {TopicID pub4}"
    by (simp_all add: cache_lookup_def cacheWithBoth_def pub4_def)
  have d: "topicToFns cacheWithSub1 (sTopicID sub1) = Some {sFunctionID sub1}"
    by (simp add: cacheWithSub1_def sub1_def)
  show ?thesis
    using C8_no_empty_sets
      [where pc = allocatedPublisherCache and pdec = decodePublisher
         and ns = "[Created ''pub1'' ''pub1 json'', Created ''pub2'' ''pub2 json'',
                    Deleted ''pub1'' ''pub1 json'']"
         and pc' = cacheAfterDel and sc = newSubscriberCache and sdec = decodeBinding
         and dc = cacheWithBoth and k = "''pub1''" and p = pub1 and v = "''pub1 json''"
         and k' = "''pub4''" and q = pub4 and s = sub1 and ds = cacheWithSub1]
      a b c d run_set_set_del decodeBinding_simps
    by blast
qed

subsection \<open>C9: the payload is decoded before the write lock is taken\<close>

text \<open>
  C9. Claim: in every Set and Del of every cache the payload is decoded before the
  write lock is taken, so that no lock is held while untrusted input is decoded. The
  Set methods do so, and three of the Del methods decode nothing
  (\<open>Set_decodes_before_lock\<close>, \<open>Del_without_decode\<close>). \<^verbatim>\<open>subscriberCache.Del\<close> does not:
  it takes the lock in its first statement and decodes under it. The theorem evaluates
  the effects of that method on a payload that decodes and on one that does not.
\<close>

theorem C9_subscriber_Del_decodes_under_lock:
  "snd (subscriberCache_Del decodeSubscriber ''sub1'' ''sub1 json'' newSubscriberCache)
     = [Lock, Decode, Unlock]
   \<and> \<not> unlocked_decode False
       (snd (subscriberCache_Del decodeSubscriber ''sub1'' ''sub1 json'' newSubscriberCache))
   \<and> \<not> unlocked_decode False
       (snd (subscriberCache_Del decodeSubscriber ''sub1'' ''not json'' newSubscriberCache))"
  by (simp add: subscriberCache_Del_def decodeSubscriber_simps)

subsection \<open>C10: the subscriber cache ignores the key\<close>

text \<open>
  C10. The state of the subscriber cache after \<open>Set(k, v)\<close> or \<open>Del(k, v)\<close> depends on
  the payload only: from the same state, the same payload under two keys gives the same
  state. (The key is only passed to the logger.)
\<close>

theorem C10_subscriber_key_irrelevant:
  "fst (subscriberCache_Set dec k1 v c) = fst (subscriberCache_Set dec k2 v c) \<and>
   fst (subscriberCache_Del dec k1 v c) = fst (subscriberCache_Del dec k2 v c)"
  by (simp add: subscriberCache_Set_def subscriberCache_Del_def split: sum.splits)

end
